theory Spec2Isabelle
  imports Main
begin

section \<open>Time values and the Date operations the scheduler uses\<close>

text \<open>
  A JavaScript \<open>Date\<close> holds a time value: the milliseconds since
  1970-01-01T00:00:00Z. The scheduler in \<open>src/services/calendar.ts\<close> reads and writes
  dates in two different zones:
  \<^item> \<open>getMinutes\<close>, \<open>getHours\<close>, \<open>setMinutes\<close> and \<open>setHours\<close> work in the local zone
    of the process that runs the server;
  \<^item> \<open>toLocaleString('en-US', {timeZone: 'America/Los_Angeles', hour: 'numeric',
    hour12: false})\<close> renders the hour of the day in the reference zone.

  Both belong to the runtime, not to the repository, so they are parameters of the model:
  \<^item> \<open>hostOffsetMinutes\<close>: the local zone of the process, as a constant number of minutes
    east of UTC (a server with \<open>TZ=UTC\<close> has 0). Hosts whose own zone changes its offset
    are outside the model.
  \<^item> \<open>zoneOffsetMinutes\<close>: the time-zone rules of the reference zone, as the offset in
    minutes east of UTC in force at a given UTC instant.
  \<^item> \<open>hourCycle\<close>: with \<open>hour12: false\<close> and the locale \<open>en-US\<close>, some releases of the
    internationalisation library print the hour after midnight as \<open>24\<close> (cycle h24),
    others as \<open>0\<close> (cycle h23). The source's comment "If past midnight (24)" refers to the
    first behaviour.

  Time values stay within the range of a valid \<open>Date\<close>; they and the duration are integers
  (the source's type is the IEEE double, exact on the integers that occur here).
\<close>

type_synonym instant = int

datatype hour_cycle = H23 | H24

record runtime =
  hostOffsetMinutes :: int
  zoneOffsetMinutes :: "instant \<Rightarrow> int"
  hourCycle :: hour_cycle

definition msPerMinute :: int where
  "msPerMinute = 60000"

definition msPerHour :: int where
  "msPerHour = 3600000"

definition msPerDay :: int where
  "msPerDay = 86400000"

definition localTime :: "runtime \<Rightarrow> instant \<Rightarrow> int" where
  "localTime rt t = t + hostOffsetMinutes rt * msPerMinute"

definition utcTime :: "runtime \<Rightarrow> int \<Rightarrow> instant" where
  "utcTime rt l = l - hostOffsetMinutes rt * msPerMinute"

definition getMinutes :: "runtime \<Rightarrow> instant \<Rightarrow> int" where
  "getMinutes rt t = (localTime rt t div msPerMinute) mod 60"

definition getHours :: "runtime \<Rightarrow> instant \<Rightarrow> int" where
  "getHours rt t = (localTime rt t div msPerHour) mod 24"

text \<open>\<open>d.setHours(h, 0, 0, 0)\<close>: the local day of \<open>d\<close>, at \<open>h\<close> hours; an \<open>h\<close> of 24 or more
  runs over into the following days. Like the other three setters and getters, this is the
  arithmetic of a host with a constant offset, such as UTC; on a host whose zone has
  daylight-saving rules the wall clock differs from it around a transition.\<close>

definition setHours :: "runtime \<Rightarrow> instant \<Rightarrow> int \<Rightarrow> instant" where
  "setHours rt t h = utcTime rt ((localTime rt t div msPerDay) * msPerDay + h * msPerHour)"

text \<open>\<open>d.setMinutes(m, 0, 0)\<close>: the local day and hour of \<open>d\<close>, at \<open>m\<close> minutes, seconds and
  milliseconds set to zero.\<close>

definition setMinutesZero :: "runtime \<Rightarrow> instant \<Rightarrow> int \<Rightarrow> instant" where
  "setMinutesZero rt t m = utcTime rt ((localTime rt t div msPerHour) * msPerHour + m * msPerMinute)"

text \<open>\<open>d.setMinutes(m)\<close>: the local day and hour of \<open>d\<close>, at \<open>m\<close> minutes, seconds and
  milliseconds kept.\<close>

definition setMinutes :: "runtime \<Rightarrow> instant \<Rightarrow> int \<Rightarrow> instant" where
  "setMinutes rt t m =
     utcTime rt ((localTime rt t div msPerHour) * msPerHour + m * msPerMinute
                 + localTime rt t mod msPerMinute)"

text \<open>\<open>parseInt(d.toLocaleString('en-US', {timeZone: 'America/Los_Angeles', hour: 'numeric',
  hour12: false}))\<close>: the hour of the day in the reference zone.\<close>

definition pacificHourOf :: "runtime \<Rightarrow> instant \<Rightarrow> int" where
  "pacificHourOf rt t =
     (let h = ((t + zoneOffsetMinutes rt t * msPerMinute) div msPerHour) mod 24
      in if hourCycle rt = H24 \<and> h = 0 then 24 else h)"

text \<open>The minute of the hour in the reference zone; the source never reads it, the
  statements about where a cursor lands do.\<close>

definition pacificMinuteOf :: "runtime \<Rightarrow> instant \<Rightarrow> int" where
  "pacificMinuteOf rt t = ((t + zoneOffsetMinutes rt t * msPerMinute) div msPerMinute) mod 60"

text \<open>
  The rules of America/Los\_Angeles between 2024-11-03T09:00Z and 2027-03-14T10:00Z:
  UTC-7 from 2025-03-09T10:00Z to 2025-11-02T09:00Z and from 2026-03-08T10:00Z to
  2026-11-01T09:00Z, UTC-8 otherwise. Used for concrete dates inside that period only.
\<close>

definition losAngelesOffset :: "instant \<Rightarrow> int" where
  "losAngelesOffset t =
     (if 1741514400000 \<le> t \<and> t < 1762074000000 then - 420
      else if 1772964000000 \<le> t \<and> t < 1793523600000 then - 420
      else - 480)"

definition utcHost :: "hour_cycle \<Rightarrow> runtime" where
  "utcHost hc = \<lparr>hostOffsetMinutes = 0, zoneOffsetMinutes = losAngelesOffset, hourCycle = hc\<rparr>"

text \<open>The same rules written a whole day ahead: every hour of the day reads the same.\<close>

definition dayAheadOffset :: "instant \<Rightarrow> int" where
  "dayAheadOffset t = losAngelesOffset t + 1440"

text \<open>A host in Asia/Kathmandu, which is UTC+5:45 all year.\<close>

definition kathmanduHost :: "hour_cycle \<Rightarrow> runtime" where
  "kathmanduHost hc =
     \<lparr>hostOffsetMinutes = 345, zoneOffsetMinutes = losAngelesOffset, hourCycle = hc\<rparr>"

section \<open>The calendar service\<close>

record calendar_event =
  event_id :: string
  summary :: string
  event_start :: instant
  event_end :: instant

record schedule_slot =
  slot_start :: instant
  slot_end :: instant
  available :: bool

text \<open>Every failure of the source is a thrown \<open>Error\<close> object, told apart by its message
  only.\<close>

datatype js_error = Error string

text \<open>The calls that reach Google Calendar: the stored credentials, \<open>getEvents(timeMin,
  timeMax)\<close> and \<open>createEvent(title, description, startTime, endTime)\<close>, which returns the id
  and the link of the new event. Each call may throw.\<close>

record calendar =
  isAuthenticated :: bool
  getEvents :: "instant \<Rightarrow> instant \<Rightarrow> js_error + calendar_event list"
  createEvent :: "string \<Rightarrow> string \<Rightarrow> instant \<Rightarrow> instant \<Rightarrow> js_error + (string \<times> string)"

definition schedulingWindowStart :: int where
  "schedulingWindowStart = 5"

definition schedulingWindowEnd :: int where
  "schedulingWindowEnd = 24"

definition maxSlotsToCheck :: nat where
  "maxSlotsToCheck = 500"

text \<open>Lines 106 to 114: the start date "rounded to next 30-min slot".
  \<open>Math.ceil(minutes / 30)\<close> is \<open>- ((- minutes) div 30)\<close>.\<close>

definition roundToNextSlot :: "runtime \<Rightarrow> instant \<Rightarrow> instant" where
  "roundToNextSlot rt startDate =
     (let minutes = getMinutes rt startDate;
          roundedMinutes = (- ((- minutes) div 30)) * 30
      in if roundedMinutes \<ge> 60
         then setHours rt startDate (getHours rt startDate + 1)
         else setMinutesZero rt startDate roundedMinutes)"

text \<open>Lines 148 to 150: \<open>events.some(event => currentDate < event.end && slotEnd >
  event.start)\<close>.\<close>

definition hasConflict :: "calendar_event list \<Rightarrow> instant \<Rightarrow> instant \<Rightarrow> bool" where
  "hasConflict events currentDate slotEnd =
     list_ex (\<lambda>event. currentDate < event_end event \<and> slotEnd > event_start event) events"

text \<open>Lines 142 to 144.\<close>

definition isWithinSchedulingWindow :: "runtime \<Rightarrow> instant \<Rightarrow> instant \<Rightarrow> bool" where
  "isWithinSchedulingWindow rt currentDate slotEnd =
     (let pacificHour = pacificHourOf rt currentDate;
          slotEndPacificHour = pacificHourOf rt slotEnd
      in pacificHour \<ge> schedulingWindowStart \<and> slotEndPacificHour \<le> schedulingWindowEnd)"

text \<open>Lines 172 to 184: the jump to the start of the window, applied to the cursor after
  it has been stepped.\<close>

definition skipToWindow :: "runtime \<Rightarrow> instant \<Rightarrow> instant" where
  "skipToWindow rt currentDate =
     (let currentPacificHour = pacificHourOf rt currentDate
      in if currentPacificHour \<ge> schedulingWindowEnd \<or> currentPacificHour < schedulingWindowStart
         then (let hoursToAdd =
                     (if currentPacificHour \<ge> schedulingWindowEnd
                      then (24 - currentPacificHour) + schedulingWindowStart
                      else schedulingWindowStart - currentPacificHour)
               in setHours rt currentDate (getHours rt currentDate + hoursToAdd))
         else currentDate)"

text \<open>Lines 161 to 184: step by 30 minutes, then jump if the hour is outside the window.\<close>

definition nextCursor :: "runtime \<Rightarrow> instant \<Rightarrow> instant" where
  "nextCursor rt currentDate =
     skipToWindow rt (setMinutes rt currentDate (getMinutes rt currentDate + 30))"

record loop_state =
  currentDate :: instant
  slotsChecked :: nat
  availableSlots :: "schedule_slot list"

text \<open>Lines 125 to 184: one pass through the body of the \<open>while\<close> loop.\<close>

definition loopBody :: "runtime \<Rightarrow> int \<Rightarrow> calendar_event list \<Rightarrow> loop_state \<Rightarrow> loop_state" where
  "loopBody rt durationMinutes events s =
     (let slotEnd = currentDate s + durationMinutes * 60 * 1000
      in \<lparr>currentDate = nextCursor rt (currentDate s),
          slotsChecked = slotsChecked s + 1,
          availableSlots =
            (if isWithinSchedulingWindow rt (currentDate s) slotEnd
                \<and> \<not> hasConflict events (currentDate s) slotEnd
             then availableSlots s
                  @ [\<lparr>slot_start = currentDate s, slot_end = slotEnd, available = True\<rparr>]
             else availableSlots s)\<rparr>)"

text \<open>Line 124: \<open>while (currentDate < endDate && slotsChecked < maxSlotsToCheck)\<close>.\<close>

function slotLoop ::
  "runtime \<Rightarrow> int \<Rightarrow> instant \<Rightarrow> calendar_event list \<Rightarrow> loop_state \<Rightarrow> loop_state" where
  "slotLoop rt durationMinutes endDate events s =
     (if currentDate s < endDate \<and> slotsChecked s < maxSlotsToCheck
      then slotLoop rt durationMinutes endDate events (loopBody rt durationMinutes events s)
      else s)"
  by pat_completeness auto
termination
  by (relation "measure (\<lambda>(rt, d, e, evs, s). maxSlotsToCheck - slotsChecked s)")
     (auto simp: loopBody_def Let_def)

definition initialState :: "runtime \<Rightarrow> instant \<Rightarrow> loop_state" where
  "initialState rt startDate =
     \<lparr>currentDate = roundToNextSlot rt startDate, slotsChecked = 0, availableSlots = []\<rparr>"

text \<open>Lines 85 to 203, with both dates given. A failure of \<open>getEvents\<close> is rethrown.\<close>

definition findAvailableSlots ::
  "runtime \<Rightarrow> calendar \<Rightarrow> int \<Rightarrow> instant \<Rightarrow> instant \<Rightarrow> js_error + schedule_slot list" where
  "findAvailableSlots rt cal durationMinutes startDate endDate =
     (case getEvents cal startDate endDate of
        Inl err \<Rightarrow> Inl err
      | Inr events \<Rightarrow>
          Inr (availableSlots
                 (slotLoop rt durationMinutes endDate events (initialState rt startDate))))"

section \<open>The scheduling flow\<close>

datatype priority = low | medium | high

text \<open>The argument of \<open>createAndScheduleTask\<close>; an optional field that is absent is
  \<open>None\<close>.\<close>

record task_data =
  title :: string
  description :: "string option"
  task_priority :: priority
  deadline :: "instant option"
  preferredStartDate :: "instant option"
  estimatedDuration :: "int option"

text \<open>
  What \<open>createAndScheduleTask\<close> returns. The source returns \<open>{message, eventId, eventLink}\<close>,
  where \<open>message\<close> is rendered in the locale of the host from the title, the start of the
  booked slot, the duration and the link; the record holds the booked slot and the duration
  in place of the rendered text.
\<close>

record scheduled_task =
  eventId :: string
  eventLink :: string
  startTime :: instant
  endTime :: instant
  scheduledMinutes :: int

definition sevenDays :: int where
  "sevenDays = 7 * 24 * 60 * 60 * 1000"

text \<open>Line 243: \<open>taskData.estimatedDuration || 60\<close>; a duration of 0 is falsy.\<close>

definition taskDuration :: "task_data \<Rightarrow> int" where
  "taskDuration taskData =
     (case estimatedDuration taskData of
        None \<Rightarrow> 60
      | Some d \<Rightarrow> if d = 0 then 60 else d)"

text \<open>Lines 249 to 252.\<close>

definition searchStartDate :: "instant \<Rightarrow> task_data \<Rightarrow> instant" where
  "searchStartDate now taskData =
     (case preferredStartDate taskData of
        None \<Rightarrow> now
      | Some p \<Rightarrow> if p > now then p else now)"

text \<open>Lines 255 to 261.\<close>

definition searchEndDate :: "instant \<Rightarrow> task_data \<Rightarrow> instant" where
  "searchEndDate now taskData =
     (let minSearchWindow = searchStartDate now taskData + sevenDays
      in case deadline taskData of
           None \<Rightarrow> minSearchWindow
         | Some dl \<Rightarrow> if dl > minSearchWindow then dl else minSearchWindow)"

definition noSlotsMessage :: string where
  "noSlotsMessage = ''No available time slots found in the specified time range''"

text \<open>Lines 277 to 284: the choice among the slots found.\<close>

definition selectSlot :: "schedule_slot list \<Rightarrow> js_error + schedule_slot" where
  "selectSlot slots =
     (case slots of
        [] \<Rightarrow> Inl (Error noSlotsMessage)
      | selectedSlot # _ \<Rightarrow> Inr selectedSlot)"

text \<open>Lines 232 to 328; \<open>now\<close> is the clock reading of line 246. The \<open>catch\<close> of line 324
  logs and rethrows.\<close>

definition createAndScheduleTask ::
  "runtime \<Rightarrow> calendar \<Rightarrow> instant \<Rightarrow> task_data \<Rightarrow> js_error + scheduled_task" where
  "createAndScheduleTask rt cal now taskData =
     (if \<not> isAuthenticated cal then Inl (Error ''Calendar not authenticated'')
      else
        let duration = taskDuration taskData
        in case findAvailableSlots rt cal duration
                  (searchStartDate now taskData) (searchEndDate now taskData) of
             Inl err \<Rightarrow> Inl err
           | Inr slots \<Rightarrow>
               (case selectSlot slots of
                  Inl err \<Rightarrow> Inl err
                | Inr selectedSlot \<Rightarrow>
                    (case createEvent cal (title taskData)
                            (case description taskData of None \<Rightarrow> [] | Some d \<Rightarrow> d)
                            (slot_start selectedSlot) (slot_end selectedSlot) of
                       Inl err \<Rightarrow> Inl err
                     | Inr (newId, link) \<Rightarrow>
                         Inr \<lparr>eventId = newId, eventLink = link,
                              startTime = slot_start selectedSlot,
                              endTime = slot_end selectedSlot,
                              scheduledMinutes = duration\<rparr>)))"

text \<open>
  The two callers. In the chat flow (lines 200 to 213 of the agent) the reply to the user is
  the assistant's text, already stripped of the \<open>SCHEDULE_TASK\<close> command, followed by the
  rendered message after a check mark, or by a fixed apology after a cross mark when
  anything was thrown. \<open>messageOf\<close> is the rendering of the message.
\<close>

definition blankLine :: string where
  "blankLine = [CHR 0x0A, CHR 0x0A]"

text \<open>The two marks, byte for byte as the source file holds them in UTF-8.\<close>

definition checkMark :: string where
  "checkMark = [CHR 0xE2, CHR 0x80, CHR 0x9A, CHR 0xC3, CHR 0xBA, CHR 0xC3, CHR 0x96]"

definition crossMark :: string where
  "crossMark = [CHR 0xE2, CHR 0x80, CHR 0x9A, CHR 0xC3, CHR 0xB9, CHR 0xC3, CHR 0xA5]"

definition chatReply ::
  "(scheduled_task \<Rightarrow> string) \<Rightarrow> string \<Rightarrow> js_error + scheduled_task \<Rightarrow> string" where
  "chatReply messageOf assistantMessage result =
     (case result of
        Inr r \<Rightarrow>
          (if assistantMessage \<noteq> [] then assistantMessage @ blankLine else assistantMessage)
          @ checkMark @ '' '' @ messageOf r
      | Inl err \<Rightarrow>
          assistantMessage @ blankLine @ crossMark
          @ '' Sorry, I encountered an error saving the task. Please try again.'')"

text \<open>The route \<open>POST /tasks\<close> of \<open>src/server.ts\<close>: the status code and the body.\<close>

definition postTasks :: "js_error + scheduled_task \<Rightarrow> nat \<times> (string + scheduled_task)" where
  "postTasks result =
     (case result of
        Inr r \<Rightarrow> (200, Inr r)
      | Inl err \<Rightarrow> (500, Inl ''Failed to create task''))"

section \<open>Concrete calendars and requests\<close>

text \<open>Dates used below, all in January and March 2025 (Pacific Standard Time is UTC-8
  until 2025-03-09T10:00Z):
  \<^item> \<open>1736148600000\<close> is 2025-01-06T07:30:00Z, 23:30 on 5 January in Los Angeles;
  \<^item> \<open>1736181000000\<close> is 2025-01-06T16:30:00Z, 08:30 on 6 January in Los Angeles;
  \<^item> \<open>1736186400000\<close> is 2025-01-06T18:00:00Z, 10:00 on 6 January in Los Angeles;
  \<^item> \<open>1741505400000\<close> is 2025-03-09T07:30:00Z, 23:30 on 8 March in Los Angeles.\<close>

definition noEvents :: "instant \<Rightarrow> instant \<Rightarrow> js_error + calendar_event list" where
  "noEvents timeMin timeMax = Inr []"

definition insertOk :: "string \<Rightarrow> string \<Rightarrow> instant \<Rightarrow> instant \<Rightarrow> js_error + (string \<times> string)" where
  "insertOk t d s e = Inr (''evt-1'', ''https://calendar.example/evt-1'')"

definition freeCalendar :: calendar where
  "freeCalendar = \<lparr>isAuthenticated = True, getEvents = noEvents, createEvent = insertOk\<rparr>"

text \<open>One meeting from 09:00 to 10:00 in Los Angeles on 6 January 2025.\<close>

definition morningMeeting :: calendar_event where
  "morningMeeting =
     \<lparr>event_id = ''m1'', summary = ''Meeting'',
      event_start = 1736182800000, event_end = 1736186400000\<rparr>"

definition oneMeeting :: "instant \<Rightarrow> instant \<Rightarrow> js_error + calendar_event list" where
  "oneMeeting timeMin timeMax = Inr [morningMeeting]"

definition meetingCalendar :: calendar where
  "meetingCalendar = \<lparr>isAuthenticated = True, getEvents = oneMeeting, createEvent = insertOk\<rparr>"

text \<open>One event that covers the whole of January 2025.\<close>

definition januaryBlock :: calendar_event where
  "januaryBlock =
     \<lparr>event_id = ''b1'', summary = ''Away'',
      event_start = 1735689600000, event_end = 1738368000000\<rparr>"

definition allJanuary :: "instant \<Rightarrow> instant \<Rightarrow> js_error + calendar_event list" where
  "allJanuary timeMin timeMax = Inr [januaryBlock]"

definition bookedCalendar :: calendar where
  "bookedCalendar = \<lparr>isAuthenticated = True, getEvents = allJanuary, createEvent = insertOk\<rparr>"

definition signedOutCalendar :: calendar where
  "signedOutCalendar = \<lparr>isAuthenticated = False, getEvents = noEvents, createEvent = insertOk\<rparr>"

text \<open>A task with no dates and no duration, a task due at 17:59:59.999Z on 13 January
  2025, and a task due at 18:15Z on 6 January 2025.\<close>

definition plainTask :: task_data where
  "plainTask =
     \<lparr>title = ''Write notes'', description = None, task_priority = medium,
      deadline = None, preferredStartDate = None, estimatedDuration = None\<rparr>"


definition urgentTask :: task_data where
  "urgentTask =
     \<lparr>title = ''Send report'', description = None, task_priority = high,
      deadline = Some 1736187300000, preferredStartDate = None, estimatedDuration = Some 30\<rparr>"

section \<open>Properties of the Date operations and of the loop\<close>

declare slotLoop.simps [simp del]

lemma slotLoop_preserves:
  assumes "I s"
    and "\<And>s. I s \<Longrightarrow> currentDate s < endDate \<Longrightarrow> slotsChecked s < maxSlotsToCheck
            \<Longrightarrow> I (loopBody rt d events s)"
  shows "I (slotLoop rt d endDate events s)"
  using assms
proof (induction rt d endDate events s rule: slotLoop.induct)
  case (1 rt d endDate events s)
  show ?case
  proof (cases "currentDate s < endDate \<and> slotsChecked s < maxSlotsToCheck")
    case True
    have "I (loopBody rt d events s)"
      by (rule "1.prems"(2)) (use "1.prems"(1) True in blast)+
    then have "I (slotLoop rt d endDate events (loopBody rt d events s))"
      by (rule "1.IH" [OF True _ "1.prems"(2)])
    then show ?thesis using True by (subst slotLoop.simps) simp
  next
    case False
    then have "slotLoop rt d endDate events s = s"
      by (subst slotLoop.simps) auto
    then show ?thesis using "1.prems"(1) by simp
  qed
qed

lemma hour_split: "(l::int) mod 3600000 = (l div 60000 mod 60) * 60000 + l mod 60000"
proof -
  have "l mod (60000 * 60) = 60000 * (l div 60000 mod 60) + l mod 60000"
    by (rule zmod_zmult2_eq) simp
  then show ?thesis by simp
qed

lemma setMinutes_step: "setMinutes rt c (getMinutes rt c + 30) = c + 30 * msPerMinute"
proof -
  define l where "l = localTime rt c"
  have "(l div 3600000) * 3600000 + l mod 3600000 = l" by simp
  then have "(l div 3600000) * 3600000 + (l div 60000 mod 60) * 60000 + l mod 60000 = l"
    using hour_split [of l] by linarith
  then show ?thesis
    unfolding setMinutes_def getMinutes_def utcTime_def msPerHour_def msPerMinute_def l_def [symmetric]
    by (simp add: algebra_simps localTime_def l_def msPerMinute_def)
qed

lemma day_split: "(l::int) div 86400000 * 86400000 + (l div 3600000 mod 24) * 3600000 = l div 3600000 * 3600000"
proof -
  have "l div (3600000 * 24) = l div 3600000 div 24"
    by (rule zdiv_zmult2_eq) simp
  then have "l div 86400000 = l div 3600000 div 24" by simp
  moreover have "(l div 3600000 div 24) * 24 + l div 3600000 mod 24 = l div 3600000" by simp
  ultimately show ?thesis by linarith
qed

lemma setHours_add:
  "setHours rt c (getHours rt c + k) = c - localTime rt c mod msPerHour + k * msPerHour"
proof -
  define l where "l = localTime rt c"
  have "(l div 3600000) * 3600000 + l mod 3600000 = l" by simp
  then have "l div 86400000 * 86400000 + (l div 3600000 mod 24) * 3600000 = l - l mod 3600000"
    using day_split [of l] by linarith
  then show ?thesis
    unfolding setHours_def getHours_def utcTime_def msPerHour_def msPerDay_def l_def [symmetric]
    by (simp add: algebra_simps localTime_def l_def msPerMinute_def)
qed

lemma pacificHourOf_range: "0 \<le> pacificHourOf rt t \<and> pacificHourOf rt t \<le> 24"
  by (simp add: pacificHourOf_def Let_def msPerHour_def)
     (smt (verit) pos_mod_bound pos_mod_sign)

lemma skipToWindow_ge: "c \<le> skipToWindow rt c"
proof -
  have b: "localTime rt c mod msPerHour < msPerHour" by (simp add: msPerHour_def)
  have r: "0 \<le> pacificHourOf rt c \<and> pacificHourOf rt c \<le> 24" by (rule pacificHourOf_range)
  show ?thesis
    using b r
    by (auto simp: skipToWindow_def Let_def setHours_add schedulingWindowStart_def
        schedulingWindowEnd_def msPerHour_def)
qed

lemma nextCursor_gt: "c < nextCursor rt c"
  using skipToWindow_ge [of "c + 30 * msPerMinute" rt]
  by (simp add: nextCursor_def setMinutes_step msPerMinute_def)

lemma findAvailableSlots_Inr:
  "getEvents cal startDate endDate = Inr events \<Longrightarrow>
   findAvailableSlots rt cal d startDate endDate =
     Inr (availableSlots (slotLoop rt d endDate events (initialState rt startDate)))"
  by (simp add: findAvailableSlots_def)

lemma findAvailableSlots_result:
  assumes "findAvailableSlots rt cal d startDate endDate = Inr slots"
  obtains events where "getEvents cal startDate endDate = Inr events"
    and "slots = availableSlots (slotLoop rt d endDate events (initialState rt startDate))"
  using assms by (auto simp: findAvailableSlots_def split: sum.splits)

lemma slotLoop_unfold:
  "currentDate s < endDate \<Longrightarrow> slotsChecked s < maxSlotsToCheck \<Longrightarrow>
   slotLoop rt d endDate events s = slotLoop rt d endDate events (loopBody rt d events s)"
  by (subst slotLoop.simps) simp

lemma slotLoop_exit:
  "endDate \<le> currentDate s \<or> maxSlotsToCheck \<le> slotsChecked s \<Longrightarrow>
   slotLoop rt d endDate events s = s"
  by (subst slotLoop.simps) auto

lemma slots_all:
  assumes "\<forall>x \<in> set (availableSlots s). P x"
    and "\<And>c. P \<lparr>slot_start = c, slot_end = c + d * 60 * 1000, available = True\<rparr>"
  shows "\<forall>x \<in> set (availableSlots (slotLoop rt d endDate events s)). P x"
proof (rule slotLoop_preserves [where I = "\<lambda>s::loop_state. \<forall>x \<in> set (availableSlots s). P x"])
  show "\<forall>x \<in> set (availableSlots s). P x" by (rule assms(1))
next
  fix s' :: loop_state assume "\<forall>x \<in> set (availableSlots s'). P x"
  then show "\<forall>x \<in> set (availableSlots (loopBody rt d events s')). P x"
    using assms(2) by (auto simp: loopBody_def Let_def)
qed

lemma slots_kept:
  assumes "x \<in> set (availableSlots s)"
  shows "x \<in> set (availableSlots (slotLoop rt d endDate events s))"
proof (rule slotLoop_preserves [where I = "\<lambda>s::loop_state. x \<in> set (availableSlots s)"])
  show "x \<in> set (availableSlots s)" by (rule assms)
next
  fix s' :: loop_state assume "x \<in> set (availableSlots s')"
  then show "x \<in> set (availableSlots (loopBody rt d events s'))"
    by (auto simp: loopBody_def Let_def)
qed

lemma slots_free:
  "\<forall>x \<in> set (availableSlots s). \<not> hasConflict events (slot_start x) (slot_end x) \<Longrightarrow>
   \<forall>x \<in> set (availableSlots (slotLoop rt d endDate events s)).
      \<not> hasConflict events (slot_start x) (slot_end x)"
proof (rule slotLoop_preserves
    [where I = "\<lambda>s::loop_state. \<forall>x \<in> set (availableSlots s). \<not> hasConflict events (slot_start x) (slot_end x)"])
  fix s' :: loop_state assume "\<forall>x \<in> set (availableSlots s'). \<not> hasConflict events (slot_start x) (slot_end x)"
  then show "\<forall>x \<in> set (availableSlots (loopBody rt d events s')).
      \<not> hasConflict events (slot_start x) (slot_end x)"
    by (auto simp: loopBody_def Let_def)
qed

lemma slots_sorted:
  assumes "sorted_wrt (<) (map slot_start (availableSlots s))"
    and "\<forall>x \<in> set (availableSlots s). slot_start x < currentDate s"
  shows "sorted_wrt (<) (map slot_start (availableSlots (slotLoop rt d endDate events s)))"
proof -
  let ?I = "\<lambda>s::loop_state. sorted_wrt (<) (map slot_start (availableSlots s))
                \<and> (\<forall>x \<in> set (availableSlots s). slot_start x < currentDate s)"
  have "?I (slotLoop rt d endDate events s)"
  proof (rule slotLoop_preserves [where I = ?I])
    show "?I s" using assms by simp
  next
    fix s' :: loop_state assume a: "?I s'"
    have lt: "currentDate s' < nextCursor rt (currentDate s')" by (rule nextCursor_gt)
    show "?I (loopBody rt d events s')"
      using a lt by (auto simp: loopBody_def Let_def sorted_wrt_append)
  qed
  then show ?thesis by simp
qed



lemma meeting_search:
  "findAvailableSlots (utcHost H23) meetingCalendar 30 1736181000000 1736188200000 =
     Inr [\<lparr>slot_start = 1736181000000, slot_end = 1736182800000, available = True\<rparr>,
          \<lparr>slot_start = 1736186400000, slot_end = 1736188200000, available = True\<rparr>]"
  by code_simp

lemma clear_no_conflict:
  "\<forall>busy \<in> set events. event_end busy \<le> c \<or> e \<le> event_start busy \<Longrightarrow>
   \<not> hasConflict events c e"
  by (auto simp: hasConflict_def list_ex_iff)

lemma no_conflict_clear:
  "\<not> hasConflict events c e \<Longrightarrow> busy \<in> set events \<Longrightarrow>
   \<not> (c < event_end busy \<and> e > event_start busy)"
  by (auto simp: hasConflict_def list_ex_iff)

lemma candidate_kept:
  assumes "currentDate s < endDate" and "slotsChecked s < maxSlotsToCheck"
    and "isWithinSchedulingWindow rt (currentDate s) (currentDate s + d * 60 * 1000)"
    and "\<not> hasConflict events (currentDate s) (currentDate s + d * 60 * 1000)"
  shows "\<lparr>slot_start = currentDate s, slot_end = currentDate s + d * 60 * 1000, available = True\<rparr>
           \<in> set (availableSlots (slotLoop rt d endDate events s))"
proof -
  have "\<lparr>slot_start = currentDate s, slot_end = currentDate s + d * 60 * 1000, available = True\<rparr>
          \<in> set (availableSlots (loopBody rt d events s))"
    using assms(3,4) by (simp add: loopBody_def Let_def)
  then show ?thesis
    unfolding slotLoop_unfold [OF assms(1,2)] by (rule slots_kept)
qed

lemma fully_booked:
  assumes g: "getEvents cal startDate endDate = Inr events"
    and b: "busy \<in> set events"
    and lo: "event_start busy < roundToNextSlot rt startDate + d * 60 * 1000"
    and hi: "endDate \<le> event_end busy"
  shows "findAvailableSlots rt cal d startDate endDate = Inr []"
proof -
  let ?I = "\<lambda>s::loop_state. availableSlots s = [] \<and> roundToNextSlot rt startDate \<le> currentDate s"
  have "?I (slotLoop rt d endDate events (initialState rt startDate))"
  proof (rule slotLoop_preserves [where I = ?I])
    show "?I (initialState rt startDate)" by (simp add: initialState_def)
  next
    fix s :: loop_state
    assume i: "?I s" and c: "currentDate s < endDate"
    have "currentDate s < event_end busy \<and> currentDate s + d * 60 * 1000 > event_start busy"
      using i c lo hi by linarith
    then have "hasConflict events (currentDate s) (currentDate s + d * 60 * 1000)"
      using b by (auto simp: hasConflict_def list_ex_iff)
    moreover have "currentDate s < nextCursor rt (currentDate s)" by (rule nextCursor_gt)
    ultimately show "?I (loopBody rt d events s)"
      using i by (simp add: loopBody_def Let_def)
  qed
  then show ?thesis using findAvailableSlots_Inr [OF g, of rt d] by simp
qed

lemma first_candidate:
  assumes g: "getEvents cal startDate endDate = Inr events"
    and c: "roundToNextSlot rt startDate = c0"
    and lt: "c0 < endDate"
    and w: "isWithinSchedulingWindow rt c0 (c0 + d * 60 * 1000)"
    and f: "\<not> hasConflict events c0 (c0 + d * 60 * 1000)"
  shows "\<exists>rest. findAvailableSlots rt cal d startDate endDate =
           Inr (\<lparr>slot_start = c0, slot_end = c0 + d * 60 * 1000, available = True\<rparr> # rest)"
proof -
  let ?x = "\<lparr>slot_start = c0, slot_end = c0 + d * 60 * 1000, available = True\<rparr>"
  let ?s0 = "initialState rt startDate"
  let ?I = "\<lambda>s::loop_state. \<exists>rest. availableSlots s = ?x # rest"
  have u: "slotLoop rt d endDate events ?s0 = slotLoop rt d endDate events (loopBody rt d events ?s0)"
    by (rule slotLoop_unfold) (use c lt in \<open>simp_all add: initialState_def maxSlotsToCheck_def\<close>)
  have "?I (slotLoop rt d endDate events (loopBody rt d events ?s0))"
  proof (rule slotLoop_preserves [where I = ?I])
    show "?I (loopBody rt d events ?s0)"
      using c w f by (simp add: loopBody_def Let_def initialState_def)
  next
    fix s :: loop_state
    assume "?I s"
    then show "?I (loopBody rt d events s)" by (auto simp: loopBody_def Let_def)
  qed
  then show ?thesis using findAvailableSlots_Inr [OF g, of rt d] u by simp
qed

lemma flow_no_slots:
  "isAuthenticated cal \<Longrightarrow>
   findAvailableSlots rt cal (taskDuration taskData)
       (searchStartDate now taskData) (searchEndDate now taskData) = Inr [] \<Longrightarrow>
   createAndScheduleTask rt cal now taskData = Inl (Error noSlotsMessage)"
  by (simp add: createAndScheduleTask_def selectSlot_def)

lemma flow_books_first:
  "isAuthenticated cal \<Longrightarrow>
   findAvailableSlots rt cal (taskDuration taskData)
       (searchStartDate now taskData) (searchEndDate now taskData) = Inr (first # rest) \<Longrightarrow>
   createAndScheduleTask rt cal now taskData =
     (case createEvent cal (title taskData)
             (case description taskData of None \<Rightarrow> [] | Some d \<Rightarrow> d)
             (slot_start first) (slot_end first) of
        Inl err \<Rightarrow> Inl err
      | Inr (newId, link) \<Rightarrow>
          Inr \<lparr>eventId = newId, eventLink = link,
               startTime = slot_start first, endTime = slot_end first,
               scheduledMinutes = taskDuration taskData\<rparr>)"
  by (simp add: createAndScheduleTask_def selectSlot_def Let_def)

lemma booked_search:
  "findAvailableSlots (utcHost H23) bookedCalendar (taskDuration plainTask)
       (searchStartDate 1736186400000 plainTask) (searchEndDate 1736186400000 plainTask) = Inr []"
proof -
  have d: "taskDuration plainTask = 60" by (simp add: taskDuration_def plainTask_def)
  have s: "searchStartDate 1736186400000 plainTask = 1736186400000"
    by (simp add: searchStartDate_def plainTask_def)
  have e: "searchEndDate 1736186400000 plainTask = 1736791200000"
    by (simp add: searchEndDate_def searchStartDate_def plainTask_def sevenDays_def)
  have r: "roundToNextSlot (utcHost H23) 1736186400000 = 1736186400000" by code_simp
  show ?thesis
    unfolding d s e
    by (rule fully_booked [where busy = januaryBlock and events = "[januaryBlock]"])
       (simp_all add: bookedCalendar_def allJanuary_def januaryBlock_def r)
qed

lemma booked_flow:
  "createAndScheduleTask (utcHost H23) bookedCalendar 1736186400000 plainTask =
     Inl (Error noSlotsMessage)"
  by (rule flow_no_slots [OF _ booked_search]) (simp add: bookedCalendar_def)

lemma signed_out_flow:
  "createAndScheduleTask rt signedOutCalendar now taskData =
     Inl (Error ''Calendar not authenticated'')"
  by (simp add: createAndScheduleTask_def signedOutCalendar_def)

lemma urgent_search:
  "\<exists>rest. findAvailableSlots (utcHost H23) freeCalendar (taskDuration urgentTask)
       (searchStartDate 1736186700000 urgentTask) (searchEndDate 1736186700000 urgentTask) =
     Inr (\<lparr>slot_start = 1736188200000, slot_end = 1736190000000, available = True\<rparr> # rest)"
proof -
  have d: "taskDuration urgentTask = 30" by (simp add: taskDuration_def urgentTask_def)
  have s: "searchStartDate 1736186700000 urgentTask = 1736186700000"
    by (simp add: searchStartDate_def urgentTask_def)
  have e: "searchEndDate 1736186700000 urgentTask = 1736791500000"
    by (simp add: searchEndDate_def searchStartDate_def urgentTask_def sevenDays_def)
  have r: "roundToNextSlot (utcHost H23) 1736186700000 = 1736188200000" by code_simp
  have w: "isWithinSchedulingWindow (utcHost H23) 1736188200000 (1736188200000 + 30 * 60 * 1000)"
    by code_simp
  have "\<exists>rest. findAvailableSlots (utcHost H23) freeCalendar 30 1736186700000 1736791500000 =
     Inr (\<lparr>slot_start = 1736188200000, slot_end = 1736188200000 + 30 * 60 * 1000,
           available = True\<rparr> # rest)"
    by (rule first_candidate [where events = "[]", OF _ r _ w])
       (simp_all add: freeCalendar_def noEvents_def hasConflict_def)
  then show ?thesis unfolding d s e by simp
qed


text \<open>What does hold of the initial cursor: it is less than a minute before the start
  date and less than 30 minutes after it, and not before it when the start date is on a
  whole minute or its minute is neither 0 nor 30.\<close>

lemma ceil30:
  "0 \<le> m \<Longrightarrow> m < 60 \<Longrightarrow>
   (- ((- m) div 30)) * 30 = (if m = 0 then 0 else if m \<le> 30 then 30 else (60::int))"
proof -
  assume m: "0 \<le> m" "m < 60"
  consider "m = 0" | "0 < m \<and> m \<le> 30" | "30 < m" using m by linarith
  then show ?thesis
  proof cases
    case 1 then show ?thesis by simp
  next
    case 2
    then have "(- m) div 30 = - 1" by (intro int_div_pos_eq [where r = "30 - m"]) auto
    then show ?thesis using 2 by simp
  next
    case 3
    then have "(- m) div 30 = - 2" using m by (intro int_div_pos_eq [where r = "60 - m"]) auto
    then show ?thesis using 3 by simp
  qed
qed


lemma roundToNextSlot_cases:
  fixes rt startDate
  defines "m \<equiv> getMinutes rt startDate"
  defines "base \<equiv> startDate - m * msPerMinute - localTime rt startDate mod msPerMinute"
  shows "roundToNextSlot rt startDate =
           (if m = 0 then base else if m \<le> 30 then base + 30 * msPerMinute
            else base + 60 * msPerMinute)"
proof -
  define l where "l = localTime rt startDate"
  have m: "0 \<le> m \<and> m < 60" by (simp add: m_def getMinutes_def)
  have mm: "m = l div 60000 mod 60" by (simp add: m_def getMinutes_def l_def msPerMinute_def)
  have h: "l mod 3600000 = m * 60000 + l mod 60000" using hour_split [of l] by (simp add: mm)
  have fl: "l div 3600000 * 3600000 = l - l mod 3600000"
    by (simp add: minus_mod_eq_div_mult)
  have sh: "setHours rt startDate (getHours rt startDate + 1) = base + 60 * msPerMinute"
    using setHours_add [of rt startDate 1] h
    by (simp add: base_def l_def msPerHour_def msPerMinute_def)
  have sm: "\<And>k. setMinutesZero rt startDate k = base + k * msPerMinute"
    unfolding setMinutesZero_def utcTime_def l_def [symmetric] msPerHour_def fl h
    by (simp add: base_def l_def localTime_def msPerMinute_def)
  show ?thesis
    using m ceil30 [of m]
    by (simp add: roundToNextSlot_def Let_def m_def [symmetric] sh sm)
qed

lemma roundToNextSlot_bounds:
  "startDate - msPerMinute < roundToNextSlot rt startDate
   \<and> roundToNextSlot rt startDate < startDate + 30 * msPerMinute
   \<and> (localTime rt startDate mod msPerMinute = 0 \<or> getMinutes rt startDate mod 30 \<noteq> 0
        \<longrightarrow> startDate \<le> roundToNextSlot rt startDate)"
proof -
  define m where "m = getMinutes rt startDate"
  define s where "s = localTime rt startDate mod msPerMinute"
  have m: "0 \<le> m \<and> m < 60" by (simp add: m_def getMinutes_def)
  have s: "0 \<le> s \<and> s < 60000" by (simp add: s_def msPerMinute_def)
  have m30: "m mod 30 \<noteq> 0 \<Longrightarrow> m \<noteq> 0 \<and> m \<noteq> 30" by auto
  show ?thesis
    unfolding roundToNextSlot_cases m_def [symmetric] s_def [symmetric]
    using m s m30 by (auto simp: msPerMinute_def)
qed

text \<open>What does hold of the jump: when the reference zone has the same offset before and
  after it, and the host's offset differs from it by whole hours, the cursor lands on hour
  5, minute 0, at most five hours later.\<close>

lemma skipToWindow_lands:
  assumes out: "pacificHourOf rt c \<ge> schedulingWindowEnd \<or> pacificHourOf rt c < schedulingWindowStart"
    and same: "zoneOffsetMinutes rt (skipToWindow rt c) = zoneOffsetMinutes rt c"
    and whole: "(hostOffsetMinutes rt - zoneOffsetMinutes rt c) mod 60 = 0"
  shows "pacificHourOf rt (skipToWindow rt c) = schedulingWindowStart
       \<and> pacificMinuteOf rt (skipToWindow rt c) = 0
       \<and> c < skipToWindow rt c
       \<and> skipToWindow rt c \<le> c + 5 * msPerHour"
proof -
  define z where "z = zoneOffsetMinutes rt c"
  define q where "q = c + z * 60000"
  define n where "n = q div 3600000"
  define h0 where "h0 = n mod 24"
  define new where "new = skipToWindow rt c"
  have h0: "0 \<le> h0 \<and> h0 < 24" by (simp add: h0_def)
  have ph: "pacificHourOf rt c = (if hourCycle rt = H24 \<and> h0 = 0 then 24 else h0)"
    by (simp add: pacificHourOf_def Let_def h0_def n_def q_def z_def msPerMinute_def msPerHour_def)
  obtain j where j: "hostOffsetMinutes rt - z = 60 * j"
    using whole unfolding z_def by (metis mod_eq_0_iff_dvd dvdE)
  have "localTime rt c = q + j * 3600000"
    using j by (simp add: localTime_def q_def msPerMinute_def algebra_simps)
  then have lm: "localTime rt c mod 3600000 = q mod 3600000" by simp
  have k: "new = c - q mod 3600000 + (5 - h0) * 3600000"
    using out h0 unfolding new_def skipToWindow_def Let_def setHours_add ph
    by (auto simp: schedulingWindowStart_def schedulingWindowEnd_def msPerHour_def lm
             split: if_splits)
  have fl: "q - q mod 3600000 = n * 3600000" by (simp add: n_def minus_mod_eq_div_mult)
  have "new + z * 60000 = q - q mod 3600000 + (5 - h0) * 3600000"
    unfolding k q_def by simp
  then have pl: "new + z * 60000 = (n + 5 - h0) * 3600000"
    unfolding fl by (simp add: algebra_simps)
  have "n = 24 * (n div 24) + h0" by (simp add: h0_def)
  then have n5: "n + 5 - h0 = 24 * (n div 24) + 5" by linarith
  have raw: "(new + z * 60000) div 3600000 mod 24 = 5"
    unfolding pl n5 by simp
  have mi: "(new + z * 60000) div 60000 mod 60 = 0"
  proof -
    have "(n + 5 - h0) * 3600000 = ((n + 5 - h0) * 60) * 60000" by simp
    then have "(new + z * 60000) div 60000 = (n + 5 - h0) * 60" unfolding pl by simp
    then show ?thesis by simp
  qed
  have zn: "zoneOffsetMinutes rt new = z" using same by (simp add: new_def z_def)
  have "pacificHourOf rt new = 5"
    using raw by (simp add: pacificHourOf_def Let_def zn msPerMinute_def msPerHour_def)
  moreover have "pacificMinuteOf rt new = 0"
    using mi by (simp add: pacificMinuteOf_def zn msPerMinute_def)
  moreover have "c < new \<and> new \<le> c + 5 * msPerHour"
  proof -
    have "h0 \<le> 4"
      using out h0 unfolding ph
      by (auto simp: schedulingWindowStart_def schedulingWindowEnd_def split: if_splits)
    then show ?thesis
      unfolding k msPerHour_def
    proof -
      have lo: "0 \<le> q mod 3600000" by simp
      have hi: "q mod 3600000 < 3600000" by simp
      assume "h0 \<le> 4"
      then show "c < c - q mod 3600000 + (5 - h0) * 3600000 \<and>
        c - q mod 3600000 + (5 - h0) * 3600000 \<le> c + 5 * 3600000"
        using lo hi h0 by (simp only: algebra_simps) linarith
    qed
  qed
  ultimately show ?thesis by (simp add: new_def schedulingWindowStart_def)
qed

text \<open>What does hold of the window: the hour of the start of a returned slot is at least
  5, and below 24 on a runtime that prints midnight as 0; the hour of the end is at most
  24, as every hour is.\<close>

lemma slots_within:
  assumes "findAvailableSlots rt cal d startDate endDate = Inr slots"
    and "slot \<in> set slots"
  shows "schedulingWindowStart \<le> pacificHourOf rt (slot_start slot)
       \<and> pacificHourOf rt (slot_end slot) \<le> schedulingWindowEnd
       \<and> (hourCycle rt = H23 \<longrightarrow> pacificHourOf rt (slot_start slot) < schedulingWindowEnd)"
proof -
  from assms(1) obtain events where
    s: "slots = availableSlots (slotLoop rt d endDate events (initialState rt startDate))"
    by (rule findAvailableSlots_result)
  let ?I = "\<lambda>s::loop_state. \<forall>x \<in> set (availableSlots s).
              isWithinSchedulingWindow rt (slot_start x) (slot_end x)"
  have "?I (slotLoop rt d endDate events (initialState rt startDate))"
  proof (rule slotLoop_preserves [where I = ?I])
    show "?I (initialState rt startDate)" by (simp add: initialState_def)
  next
    fix s' :: loop_state
    assume "?I s'"
    then show "?I (loopBody rt d events s')" by (auto simp: loopBody_def Let_def)
  qed
  then have w: "isWithinSchedulingWindow rt (slot_start slot) (slot_end slot)"
    using assms(2) unfolding s by blast
  have "hourCycle rt = H23 \<Longrightarrow> pacificHourOf rt (slot_start slot) < 24"
    by (simp add: pacificHourOf_def Let_def)
  then show ?thesis
    using w by (auto simp: isWithinSchedulingWindow_def Let_def schedulingWindowEnd_def)
qed

lemma winter_skip:
  "skipToWindow (utcHost H23) 1736150400000 = 1736168400000
   \<and> pacificHourOf (utcHost H23) 1736150400000 = 0
   \<and> pacificHourOf (utcHost H23) 1736168400000 = 5
   \<and> pacificMinuteOf (utcHost H23) 1736168400000 = 0"
  by (intro conjI; code_simp)




text \<open>The runtime enters the search through the offset of the host and the hour of the day
  in the reference zone, and through nothing else.\<close>

lemma getters_host:
  assumes "hostOffsetMinutes rt' = hostOffsetMinutes rt"
  shows "getMinutes rt' = getMinutes rt" and "getHours rt' = getHours rt"
    and "setHours rt' = setHours rt" and "setMinutes rt' = setMinutes rt"
    and "setMinutesZero rt' = setMinutesZero rt"
  using assms
  by (auto simp: fun_eq_iff getMinutes_def getHours_def setHours_def setMinutes_def
      setMinutesZero_def localTime_def utcTime_def)

lemma loopBody_same:
  assumes h: "hostOffsetMinutes rt' = hostOffsetMinutes rt"
    and p: "\<forall>t. pacificHourOf rt' t = pacificHourOf rt t"
  shows "loopBody rt' d events s = loopBody rt d events s"
    and "roundToNextSlot rt' startDate = roundToNextSlot rt startDate"
  using p
  by (simp_all add: loopBody_def nextCursor_def skipToWindow_def isWithinSchedulingWindow_def
      roundToNextSlot_def Let_def getters_host [OF h])

lemma slotLoop_same:
  assumes "hostOffsetMinutes rt' = hostOffsetMinutes rt"
    and "\<forall>t. pacificHourOf rt' t = pacificHourOf rt t"
  shows "slotLoop rt' d endDate events s = slotLoop rt d endDate events s"
  using assms
proof (induction rt d endDate events s rule: slotLoop.induct)
  case (1 rt d endDate events s)
  note b = loopBody_same(1) [OF "1.prems"]
  show ?case
  proof (cases "currentDate s < endDate \<and> slotsChecked s < maxSlotsToCheck")
    case True
    have "slotLoop rt' d endDate events s = slotLoop rt' d endDate events (loopBody rt d events s)"
      using True by (simp add: slotLoop_unfold b)
    also have "\<dots> = slotLoop rt d endDate events (loopBody rt d events s)"
      by (rule "1.IH" [OF True "1.prems"])
    also have "\<dots> = slotLoop rt d endDate events s"
      using True by (simp add: slotLoop_unfold)
    finally show ?thesis .
  next
    case False
    then have "endDate \<le> currentDate s \<or> maxSlotsToCheck \<le> slotsChecked s" by auto
    then show ?thesis by (simp add: slotLoop_exit)
  qed
qed

lemma findAvailableSlots_same:
  assumes "hostOffsetMinutes rt' = hostOffsetMinutes rt"
    and "\<forall>t. pacificHourOf rt' t = pacificHourOf rt t"
    and "getEvents cal' startDate endDate = getEvents cal startDate endDate"
  shows "findAvailableSlots rt' cal' d startDate endDate = findAvailableSlots rt cal d startDate endDate"
proof -
  have i: "initialState rt' startDate = initialState rt startDate"
    by (simp add: initialState_def loopBody_same(2) [OF assms(1,2)])
  show ?thesis
    using assms(3)
    by (simp add: findAvailableSlots_def i slotLoop_same [OF assms(1,2)] split: sum.splits)
qed

lemma day_ahead_hour:
  "(x + 86400000) div 3600000 mod 24 = x div 3600000 mod (24::int)"
proof -
  have "(x + 24 * 3600000) div 3600000 = 24 + x div 3600000"
    by (rule div_mult_self1) simp
  then show ?thesis by simp
qed

lemma negative_search:
  "findAvailableSlots (utcHost H23) freeCalendar (- 30) 1736186400000 1736186460000 =
     Inr [\<lparr>slot_start = 1736186400000, slot_end = 1736184600000, available = True\<rparr>]"
  by code_simp

section \<open>The claims\<close>

text \<open>
  C1, window containment, evaluated on the code. A search that starts at 23:30 in Los
  Angeles on 5 January 2025 for 50 minutes returns the slot from 23:30 to 00:20 of the next
  day, on a runtime of either hour cycle: the hour of the end is 0 (or 24), which passes
  \<open>slotEndPacificHour <= schedulingWindowEnd\<close> like every other hour of the day. On a
  runtime that prints midnight as 24, a search that starts at 23:50 for 30 minutes returns
  the slot from 00:00 to 00:30, whose start is outside the window. The bounds on the hours
  that the code does keep are in \<open>slots_within\<close>.
\<close>

theorem slot_past_midnight_returned:
  "findAvailableSlots (utcHost H23) freeCalendar 50 1736148600000 1736148660000 =
     Inr [\<lparr>slot_start = 1736148600000, slot_end = 1736151600000, available = True\<rparr>]
   \<and> findAvailableSlots (utcHost H24) freeCalendar 50 1736148600000 1736148660000 =
     Inr [\<lparr>slot_start = 1736148600000, slot_end = 1736151600000, available = True\<rparr>]
   \<and> pacificHourOf (utcHost H23) 1736148600000 = 23
   \<and> pacificMinuteOf (utcHost H23) 1736148600000 = 30
   \<and> pacificHourOf (utcHost H23) 1736151600000 = 0
   \<and> pacificMinuteOf (utcHost H23) 1736151600000 = 20
   \<and> pacificHourOf (utcHost H24) 1736151600000 = 24
   \<and> findAvailableSlots (utcHost H24) freeCalendar 30 1736149800000 1736150460000 =
     Inr [\<lparr>slot_start = 1736150400000, slot_end = 1736152200000, available = True\<rparr>]
   \<and> pacificHourOf (utcHost H24) 1736150400000 = 24
   \<and> pacificMinuteOf (utcHost H24) 1736150400000 = 0"
  by (intro conjI; code_simp)

text \<open>
  C2, no overlap: a slot returned by \<open>findAvailableSlots\<close> overlaps no fetched event, where
  two intervals overlap when \<open>slot.start < busy.end\<close> and \<open>slot.end > busy.start\<close>. And
  whenever the loop stands at a candidate inside the scheduling window that every fetched
  event leaves clear, ending at or before the candidate's start or starting at or after its
  end (so also an event that ends exactly at the start or starts exactly at the end), the
  candidate is among the slots that the loop returns.
\<close>

theorem no_overlap:
  "findAvailableSlots rt cal durationMinutes startDate endDate = Inr slots \<Longrightarrow>
   getEvents cal startDate endDate = Inr events \<Longrightarrow>
   (\<forall>slot \<in> set slots. \<forall>busy \<in> set events.
       \<not> (slot_start slot < event_end busy \<and> slot_end slot > event_start busy))
   \<and> (\<forall>s. currentDate s < endDate \<and> slotsChecked s < maxSlotsToCheck
          \<and> isWithinSchedulingWindow rt (currentDate s)
               (currentDate s + durationMinutes * 60 * 1000)
          \<and> (\<forall>busy \<in> set events.
                 event_end busy \<le> currentDate s
                 \<or> currentDate s + durationMinutes * 60 * 1000 \<le> event_start busy)
        \<longrightarrow> \<lparr>slot_start = currentDate s,
              slot_end = currentDate s + durationMinutes * 60 * 1000, available = True\<rparr>
             \<in> set (availableSlots (slotLoop rt durationMinutes endDate events s)))"
proof (intro conjI allI impI)
  assume r: "findAvailableSlots rt cal durationMinutes startDate endDate = Inr slots"
    and g: "getEvents cal startDate endDate = Inr events"
  have s: "slots = availableSlots (slotLoop rt durationMinutes endDate events (initialState rt startDate))"
    using r findAvailableSlots_Inr [OF g, of rt durationMinutes] by simp
  have "\<forall>x \<in> set slots. \<not> hasConflict events (slot_start x) (slot_end x)"
    unfolding s by (rule slots_free) (simp add: initialState_def)
  then show "\<forall>slot \<in> set slots. \<forall>busy \<in> set events.
       \<not> (slot_start slot < event_end busy \<and> slot_end slot > event_start busy)"
    using no_conflict_clear by blast
next
  fix s :: loop_state
  assume a: "currentDate s < endDate \<and> slotsChecked s < maxSlotsToCheck
          \<and> isWithinSchedulingWindow rt (currentDate s)
               (currentDate s + durationMinutes * 60 * 1000)
          \<and> (\<forall>busy \<in> set events.
                 event_end busy \<le> currentDate s
                 \<or> currentDate s + durationMinutes * 60 * 1000 \<le> event_start busy)"
  then have "\<not> hasConflict events (currentDate s) (currentDate s + durationMinutes * 60 * 1000)"
    by (intro clear_no_conflict) simp
  then show "\<lparr>slot_start = currentDate s,
              slot_end = currentDate s + durationMinutes * 60 * 1000, available = True\<rparr>
             \<in> set (availableSlots (slotLoop rt durationMinutes endDate events s))"
    using a by (intro candidate_kept) simp_all
qed

text \<open>The meeting from 09:00 to 10:00 with a search from 08:30 to 10:30: the candidate
  08:30 to 09:00 ends where the meeting starts, the candidate 10:00 to 10:30 starts where
  it ends, and both are returned.\<close>

theorem no_overlap_witness:
  "findAvailableSlots (utcHost H23) meetingCalendar 30 1736181000000 1736188200000 =
     Inr [\<lparr>slot_start = 1736181000000, slot_end = 1736182800000, available = True\<rparr>,
          \<lparr>slot_start = 1736186400000, slot_end = 1736188200000, available = True\<rparr>]
   \<and> getEvents meetingCalendar 1736181000000 1736188200000 = Inr [morningMeeting]
   \<and> event_start morningMeeting = 1736182800000
   \<and> event_end morningMeeting = 1736186400000
   \<and> \<not> (slot_start \<lparr>slot_start = 1736181000000, slot_end = 1736182800000, available = True\<rparr>
            < event_end morningMeeting
          \<and> slot_end \<lparr>slot_start = 1736181000000, slot_end = 1736182800000, available = True\<rparr>
            > event_start morningMeeting)
   \<and> \<lparr>slot_start = currentDate (initialState (utcHost H23) 1736181000000),
        slot_end = currentDate (initialState (utcHost H23) 1736181000000) + 30 * 60 * 1000,
        available = True\<rparr>
       \<in> set (availableSlots (slotLoop (utcHost H23) 30 1736188200000 [morningMeeting]
                  (initialState (utcHost H23) 1736181000000)))"
proof -
  have g: "getEvents meetingCalendar 1736181000000 1736188200000 = Inr [morningMeeting]"
    by (simp add: meetingCalendar_def oneMeeting_def)
  note t = no_overlap [OF meeting_search g]
  have c: "currentDate (initialState (utcHost H23) 1736181000000) = 1736181000000"
    by code_simp
  have w: "isWithinSchedulingWindow (utcHost H23) 1736181000000 (1736181000000 + 30 * 60 * 1000)"
    by code_simp
  have pre: "currentDate (initialState (utcHost H23) 1736181000000) < 1736188200000
      \<and> slotsChecked (initialState (utcHost H23) 1736181000000) < maxSlotsToCheck
      \<and> isWithinSchedulingWindow (utcHost H23) (currentDate (initialState (utcHost H23) 1736181000000))
           (currentDate (initialState (utcHost H23) 1736181000000) + 30 * 60 * 1000)
      \<and> (\<forall>busy \<in> set [morningMeeting].
             event_end busy \<le> currentDate (initialState (utcHost H23) 1736181000000)
             \<or> currentDate (initialState (utcHost H23) 1736181000000) + 30 * 60 * 1000
                  \<le> event_start busy)"
    unfolding c using w by (simp add: initialState_def maxSlotsToCheck_def morningMeeting_def)
  have a: "\<not> (slot_start \<lparr>slot_start = 1736181000000, slot_end = 1736182800000, available = True\<rparr>
            < event_end morningMeeting
          \<and> slot_end \<lparr>slot_start = 1736181000000, slot_end = 1736182800000, available = True\<rparr>
            > event_start morningMeeting)"
    using t [THEN conjunct1] by simp
  have b: "\<lparr>slot_start = currentDate (initialState (utcHost H23) 1736181000000),
        slot_end = currentDate (initialState (utcHost H23) 1736181000000) + 30 * 60 * 1000,
        available = True\<rparr>
       \<in> set (availableSlots (slotLoop (utcHost H23) 30 1736188200000 [morningMeeting]
                  (initialState (utcHost H23) 1736181000000)))"
    using t [THEN conjunct2, THEN spec, THEN mp, OF pre] .
  show ?thesis
    using meeting_search g a b by (simp add: morningMeeting_def)
qed

text \<open>
  C3, fast-forward, evaluated on the code on the day daylight-saving time starts in Los
  Angeles (9 March 2025), on a host in UTC. The cursor at 23:30 on 8 March steps to 00:00
  on 9 March, outside the window, and five hours are added: it lands on 13:00Z, which is
  06:00, not on 12:00Z, which is 05:00 at minute 0. The search returns no slot between
  05:00 and 06:00 of that day. Away from a change of offset the jump is right
  (\<open>skipToWindow_lands\<close>).
\<close>

theorem skip_lands_at_six_on_dst_day:
  "nextCursor (utcHost H23) 1741505400000 = 1741525200000
   \<and> nextCursor (utcHost H24) 1741505400000 = 1741525200000
   \<and> pacificHourOf (utcHost H23) (1741505400000 + 30 * 60 * 1000) = 0
   \<and> pacificHourOf (utcHost H24) (1741505400000 + 30 * 60 * 1000) = 24
   \<and> pacificHourOf (utcHost H23) 1741521600000 = 5
   \<and> pacificMinuteOf (utcHost H23) 1741521600000 = 0
   \<and> pacificHourOf (utcHost H23) 1741525200000 = 6
   \<and> pacificMinuteOf (utcHost H23) 1741525200000 = 0
   \<and> findAvailableSlots (utcHost H23) freeCalendar 30 1741505400000 1741525260000 =
     Inr [\<lparr>slot_start = 1741505400000, slot_end = 1741507200000, available = True\<rparr>,
          \<lparr>slot_start = 1741525200000, slot_end = 1741527000000, available = True\<rparr>]"
  by (intro conjI; code_simp)



text \<open>
  C5, validation of the request, refuted on the code: a duration of -30 or of 0 minutes, and
  a start date after the end date, are each processed as a normal search, which returns a
  slot that ends before or when it starts, or the empty list.
\<close>

theorem invalid_request_counterexample:
  "findAvailableSlots (utcHost H23) freeCalendar (- 30) 1736186400000 1736186460000 =
     Inr [\<lparr>slot_start = 1736186400000, slot_end = 1736184600000, available = True\<rparr>]
   \<and> findAvailableSlots (utcHost H23) freeCalendar 0 1736186400000 1736186460000 =
     Inr [\<lparr>slot_start = 1736186400000, slot_end = 1736186400000, available = True\<rparr>]
   \<and> findAvailableSlots (utcHost H23) freeCalendar 30 1736186460000 1736186400000 = Inr []"
  by (intro conjI; code_simp)

text \<open>
  C5 as the code has it: \<open>findAvailableSlots\<close> validates nothing. For every request, also
  one with a duration that is not positive or a start date that is not before the end date,
  it returns what the loop accumulates from the rounded start date whenever the events were
  fetched, and the empty list when the rounded start date is not before the end date; with
  a duration that is not positive every returned slot ends at or before its start; and the
  only error it returns is the one \<open>getEvents\<close> threw.
\<close>

theorem no_request_validation:
  "(\<forall>events. getEvents cal startDate endDate = Inr events \<longrightarrow>
      findAvailableSlots rt cal durationMinutes startDate endDate =
        Inr (availableSlots
               (slotLoop rt durationMinutes endDate events (initialState rt startDate))))
   \<and> (\<forall>events. getEvents cal startDate endDate = Inr events
         \<and> endDate \<le> roundToNextSlot rt startDate \<longrightarrow>
      findAvailableSlots rt cal durationMinutes startDate endDate = Inr [])
   \<and> (\<forall>slots slot. findAvailableSlots rt cal durationMinutes startDate endDate = Inr slots
         \<and> durationMinutes \<le> 0 \<and> slot \<in> set slots \<longrightarrow>
      slot_end slot \<le> slot_start slot)
   \<and> (\<forall>err. findAvailableSlots rt cal durationMinutes startDate endDate = Inl err \<longrightarrow>
      getEvents cal startDate endDate = Inl err)"
proof (intro conjI allI impI)
  fix events
  assume "getEvents cal startDate endDate = Inr events"
  then show "findAvailableSlots rt cal durationMinutes startDate endDate =
        Inr (availableSlots
               (slotLoop rt durationMinutes endDate events (initialState rt startDate)))"
    by (rule findAvailableSlots_Inr)
next
  fix events
  assume a: "getEvents cal startDate endDate = Inr events
         \<and> endDate \<le> roundToNextSlot rt startDate"
  then have "slotLoop rt durationMinutes endDate events (initialState rt startDate)
      = initialState rt startDate"
    by (intro slotLoop_exit) (simp add: initialState_def)
  then show "findAvailableSlots rt cal durationMinutes startDate endDate = Inr []"
    using a by (simp add: findAvailableSlots_def initialState_def)
next
  fix slots slot
  assume a: "findAvailableSlots rt cal durationMinutes startDate endDate = Inr slots
         \<and> durationMinutes \<le> 0 \<and> slot \<in> set slots"
  then obtain events where
    s: "slots = availableSlots (slotLoop rt durationMinutes endDate events (initialState rt startDate))"
    by (blast elim: findAvailableSlots_result)
  have "\<forall>x \<in> set slots. slot_end x - slot_start x = durationMinutes * 60 * 1000"
    unfolding s by (rule slots_all) (simp_all add: initialState_def)
  then have "slot_end slot - slot_start slot = durationMinutes * 60 * 1000" using a by blast
  then show "slot_end slot \<le> slot_start slot" using a by simp
next
  fix err
  assume "findAvailableSlots rt cal durationMinutes startDate endDate = Inl err"
  then show "getEvents cal startDate endDate = Inl err"
    by (simp add: findAvailableSlots_def split: sum.splits)
qed

text \<open>A duration of -30 minutes, and a start date one minute after the end date.\<close>

theorem no_request_validation_witness:
  "findAvailableSlots (utcHost H23) freeCalendar (- 30) 1736186400000 1736186460000 =
        Inr (availableSlots
               (slotLoop (utcHost H23) (- 30) 1736186460000 []
                  (initialState (utcHost H23) 1736186400000)))
   \<and> findAvailableSlots (utcHost H23) freeCalendar 30 1736186460000 1736186400000 = Inr []
   \<and> slot_end \<lparr>slot_start = 1736186400000, slot_end = 1736184600000, available = True\<rparr>
       \<le> slot_start \<lparr>slot_start = 1736186400000, slot_end = 1736184600000, available = True\<rparr>"
proof (intro conjI)
  have g1: "getEvents freeCalendar 1736186400000 1736186460000 = Inr []"
    by (simp add: freeCalendar_def noEvents_def)
  show "findAvailableSlots (utcHost H23) freeCalendar (- 30) 1736186400000 1736186460000 =
        Inr (availableSlots
               (slotLoop (utcHost H23) (- 30) 1736186460000 []
                  (initialState (utcHost H23) 1736186400000)))"
    using no_request_validation [of freeCalendar 1736186400000 1736186460000 "utcHost H23" "- 30",
        THEN conjunct1, THEN spec, THEN mp, OF g1] .
next
  have g2: "getEvents freeCalendar 1736186460000 1736186400000 = Inr []
      \<and> 1736186400000 \<le> roundToNextSlot (utcHost H23) 1736186460000"
    by (simp add: freeCalendar_def noEvents_def) code_simp
  show "findAvailableSlots (utcHost H23) freeCalendar 30 1736186460000 1736186400000 = Inr []"
    using no_request_validation [of freeCalendar 1736186460000 1736186400000 "utcHost H23" 30,
        THEN conjunct2, THEN conjunct1, THEN spec, THEN mp, OF g2] .
next
  have g3: "findAvailableSlots (utcHost H23) freeCalendar (- 30) 1736186400000 1736186460000 =
       Inr [\<lparr>slot_start = 1736186400000, slot_end = 1736184600000, available = True\<rparr>]
      \<and> (- 30 :: int) \<le> 0
      \<and> \<lparr>slot_start = 1736186400000, slot_end = 1736184600000, available = True\<rparr>
          \<in> set [\<lparr>slot_start = 1736186400000, slot_end = 1736184600000, available = True\<rparr>]"
    using negative_search by simp
  show "slot_end \<lparr>slot_start = 1736186400000, slot_end = 1736184600000, available = True\<rparr>
       \<le> slot_start \<lparr>slot_start = 1736186400000, slot_end = 1736184600000, available = True\<rparr>"
    using no_request_validation [of freeCalendar 1736186400000 1736186460000 "utcHost H23" "- 30",
        THEN conjunct2, THEN conjunct2, THEN conjunct1, THEN spec, THEN spec, THEN mp, OF g3] .
qed

text \<open>
  C6, the outcome without slots, refuted on the code: with a calendar that is busy all
  through the search range, \<open>createAndScheduleTask\<close> throws an \<open>Error\<close>, and the reply of the
  chat flow is the fixed apology, the same reply as for a calendar that is not
  authenticated; the route \<open>POST /tasks\<close> answers both alike too.
\<close>

theorem not_found_counterexample:
  "createAndScheduleTask (utcHost H23) bookedCalendar 1736186400000 plainTask =
     Inl (Error ''No available time slots found in the specified time range'')
   \<and> createAndScheduleTask (utcHost H23) signedOutCalendar 1736186400000 plainTask =
     Inl (Error ''Calendar not authenticated'')
   \<and> chatReply eventLink ''On it.''
       (createAndScheduleTask (utcHost H23) bookedCalendar 1736186400000 plainTask) =
     ''On it.'' @ blankLine @ crossMark
       @ '' Sorry, I encountered an error saving the task. Please try again.''
   \<and> chatReply eventLink ''On it.''
       (createAndScheduleTask (utcHost H23) bookedCalendar 1736186400000 plainTask) =
     chatReply eventLink ''On it.''
       (createAndScheduleTask (utcHost H23) signedOutCalendar 1736186400000 plainTask)
   \<and> postTasks (createAndScheduleTask (utcHost H23) bookedCalendar 1736186400000 plainTask) =
     postTasks (createAndScheduleTask (utcHost H23) signedOutCalendar 1736186400000 plainTask)"
  unfolding booked_flow signed_out_flow
  by (simp add: chatReply_def postTasks_def noSlotsMessage_def)

text \<open>
  C6 as the code has it: when the search result is not empty the flow books its first
  slot; when it is empty the flow throws an \<open>Error\<close> with the message "No available time
  slots found in the specified time range"; and the callers answer every thrown error
  alike, the chat flow with "Sorry, I encountered an error saving the task. Please try
  again.", the route with status 500 and "Failed to create task".
\<close>

theorem select_first_or_throw:
  "isAuthenticated cal \<Longrightarrow>
   findAvailableSlots rt cal (taskDuration taskData)
       (searchStartDate now taskData) (searchEndDate now taskData) = Inr slots \<Longrightarrow>
   (slots = [] \<longrightarrow>
      createAndScheduleTask rt cal now taskData =
        Inl (Error ''No available time slots found in the specified time range''))
   \<and> (\<forall>first rest. slots = first # rest \<longrightarrow>
      createAndScheduleTask rt cal now taskData =
        (case createEvent cal (title taskData)
                (case description taskData of None \<Rightarrow> [] | Some d \<Rightarrow> d)
                (slot_start first) (slot_end first) of
           Inl err \<Rightarrow> Inl err
         | Inr (newId, link) \<Rightarrow>
             Inr \<lparr>eventId = newId, eventLink = link,
                  startTime = slot_start first, endTime = slot_end first,
                  scheduledMinutes = taskDuration taskData\<rparr>))
   \<and> (\<forall>err. chatReply messageOf assistantMessage (Inl err) =
         assistantMessage @ blankLine @ crossMark
           @ '' Sorry, I encountered an error saving the task. Please try again.''
       \<and> postTasks (Inl err) = (500, Inl ''Failed to create task''))"
proof (intro conjI allI impI)
  assume a: "isAuthenticated cal"
    and f: "findAvailableSlots rt cal (taskDuration taskData)
       (searchStartDate now taskData) (searchEndDate now taskData) = Inr slots"
  {
    assume "slots = []"
    then show "createAndScheduleTask rt cal now taskData =
        Inl (Error ''No available time slots found in the specified time range'')"
      using flow_no_slots [OF a] f by (simp add: noSlotsMessage_def)
  }
  {
    fix first rest
    assume "slots = first # rest"
    then show "createAndScheduleTask rt cal now taskData =
        (case createEvent cal (title taskData)
                (case description taskData of None \<Rightarrow> [] | Some d \<Rightarrow> d)
                (slot_start first) (slot_end first) of
           Inl err \<Rightarrow> Inl err
         | Inr (newId, link) \<Rightarrow>
             Inr \<lparr>eventId = newId, eventLink = link,
                  startTime = slot_start first, endTime = slot_end first,
                  scheduledMinutes = taskDuration taskData\<rparr>)"
      using flow_books_first [OF a] f by simp
  }
next
  fix err
  show "chatReply messageOf assistantMessage (Inl err) =
         assistantMessage @ blankLine @ crossMark
           @ '' Sorry, I encountered an error saving the task. Please try again.''"
    by (simp add: chatReply_def)
  show "postTasks (Inl err) = (500, Inl ''Failed to create task'')"
    by (simp add: postTasks_def)
qed

text \<open>A calendar busy all through January, and a free calendar with a task of 30 minutes.\<close>

theorem select_first_or_throw_witness:
  "createAndScheduleTask (utcHost H23) bookedCalendar 1736186400000 plainTask =
     Inl (Error ''No available time slots found in the specified time range'')
   \<and> createAndScheduleTask (utcHost H23) freeCalendar 1736186700000 urgentTask =
     Inr \<lparr>eventId = ''evt-1'', eventLink = ''https://calendar.example/evt-1'',
          startTime = 1736188200000, endTime = 1736190000000, scheduledMinutes = 30\<rparr>"
proof
  have a: "isAuthenticated bookedCalendar" by (simp add: bookedCalendar_def)
  show "createAndScheduleTask (utcHost H23) bookedCalendar 1736186400000 plainTask =
     Inl (Error ''No available time slots found in the specified time range'')"
    using select_first_or_throw [OF a booked_search, THEN conjunct1] by simp
next
  obtain rest where
    f: "findAvailableSlots (utcHost H23) freeCalendar (taskDuration urgentTask)
       (searchStartDate 1736186700000 urgentTask) (searchEndDate 1736186700000 urgentTask) =
     Inr (\<lparr>slot_start = 1736188200000, slot_end = 1736190000000, available = True\<rparr> # rest)"
    using urgent_search by blast
  have a: "isAuthenticated freeCalendar" by (simp add: freeCalendar_def)
  have "createAndScheduleTask (utcHost H23) freeCalendar 1736186700000 urgentTask =
        (case createEvent freeCalendar (title urgentTask)
                (case description urgentTask of None \<Rightarrow> [] | Some d \<Rightarrow> d)
                (slot_start \<lparr>slot_start = 1736188200000, slot_end = 1736190000000, available = True\<rparr>)
                (slot_end \<lparr>slot_start = 1736188200000, slot_end = 1736190000000, available = True\<rparr>) of
           Inl err \<Rightarrow> Inl err
         | Inr (newId, link) \<Rightarrow>
             Inr \<lparr>eventId = newId, eventLink = link,
                  startTime = slot_start \<lparr>slot_start = 1736188200000, slot_end = 1736190000000, available = True\<rparr>,
                  endTime = slot_end \<lparr>slot_start = 1736188200000, slot_end = 1736190000000, available = True\<rparr>,
                  scheduledMinutes = taskDuration urgentTask\<rparr>)"
    using select_first_or_throw [OF a f, THEN conjunct2, THEN conjunct1] by blast
  then show "createAndScheduleTask (utcHost H23) freeCalendar 1736186700000 urgentTask =
     Inr \<lparr>eventId = ''evt-1'', eventLink = ''https://calendar.example/evt-1'',
          startTime = 1736188200000, endTime = 1736190000000, scheduledMinutes = 30\<rparr>"
    by (simp add: freeCalendar_def insertOk_def taskDuration_def urgentTask_def)
qed




text \<open>
  C8, the initial cursor, evaluated on the code: \<open>setMinutes(roundedMinutes, 0, 0)\<close> clears
  the seconds and milliseconds, which \<open>Math.ceil\<close> never saw. A start date of 18:00:30Z
  gives the cursor 18:00:00Z, before the start date, and the search returns a slot that
  starts there; a start date of 18:30:00.001Z gives 18:30:00Z. For a start date on a whole
  minute the rounding is upwards (\<open>roundToNextSlot_bounds\<close>).
\<close>

theorem initial_cursor_before_start:
  "roundToNextSlot (utcHost H23) 1736186430000 = 1736186400000
   \<and> roundToNextSlot (utcHost H23) 1736186430000 < 1736186430000
   \<and> roundToNextSlot (utcHost H23) 1736188200001 = 1736188200000
   \<and> findAvailableSlots (utcHost H23) freeCalendar 30 1736186430000 1736186460000 =
     Inr [\<lparr>slot_start = 1736186400000, slot_end = 1736188200000, available = True\<rparr>]"
  by (intro conjI; code_simp)

text \<open>
  C9, determinism and order, refuted on the code as a statement about the listed inputs
  alone: with the same calendar, duration and dates, a runtime that prints midnight as 0
  returns no slot where one that prints it as 24 returns the slot from 00:00 to 00:30, and a
  host in UTC returns the slot from 18:30Z where a host in Kathmandu returns the one from
  18:15Z.
\<close>

theorem runtime_dependence_counterexample:
  "findAvailableSlots (utcHost H23) freeCalendar 30 1736149800000 1736150460000 = Inr []
   \<and> findAvailableSlots (utcHost H24) freeCalendar 30 1736149800000 1736150460000 =
       Inr [\<lparr>slot_start = 1736150400000, slot_end = 1736152200000, available = True\<rparr>]
   \<and> findAvailableSlots (utcHost H23) freeCalendar 30 1736187000000 1736188260000 =
       Inr [\<lparr>slot_start = 1736188200000, slot_end = 1736190000000, available = True\<rparr>]
   \<and> findAvailableSlots (kathmanduHost H23) freeCalendar 30 1736187000000 1736188260000 =
       Inr [\<lparr>slot_start = 1736187300000, slot_end = 1736189100000, available = True\<rparr>]"
  by (intro conjI; code_simp)

text \<open>
  C9 as the code has it: the slots returned are in strictly ascending order of their
  start, and the sequence is determined by the duration, the two dates, the events fetched
  for them, the offset of the host and the hour of the day that the runtime reads in the
  reference zone: any calendar that delivers the same events, on any runtime with the same
  host offset and the same hours, gives the same sequence.
\<close>

theorem sorted_and_determined:
  "findAvailableSlots rt cal durationMinutes startDate endDate = Inr slots \<Longrightarrow>
   sorted_wrt (<) (map slot_start slots)
   \<and> (\<forall>rt' cal'.
         hostOffsetMinutes rt' = hostOffsetMinutes rt
         \<and> (\<forall>t. pacificHourOf rt' t = pacificHourOf rt t)
         \<and> getEvents cal' startDate endDate = getEvents cal startDate endDate \<longrightarrow>
         findAvailableSlots rt' cal' durationMinutes startDate endDate = Inr slots)"
proof (intro conjI allI impI)
  assume r: "findAvailableSlots rt cal durationMinutes startDate endDate = Inr slots"
  from r obtain events where
    s: "slots = availableSlots (slotLoop rt durationMinutes endDate events (initialState rt startDate))"
    by (rule findAvailableSlots_result)
  show "sorted_wrt (<) (map slot_start slots)"
    unfolding s by (rule slots_sorted) (simp_all add: initialState_def)
  fix rt' :: runtime and cal' :: calendar
  assume a: "hostOffsetMinutes rt' = hostOffsetMinutes rt
         \<and> (\<forall>t. pacificHourOf rt' t = pacificHourOf rt t)
         \<and> getEvents cal' startDate endDate = getEvents cal startDate endDate"
  have "findAvailableSlots rt' cal' durationMinutes startDate endDate
      = findAvailableSlots rt cal durationMinutes startDate endDate"
    by (rule findAvailableSlots_same) (use a in blast)+
  then show "findAvailableSlots rt' cal' durationMinutes startDate endDate = Inr slots"
    using r by simp
qed

text \<open>The same search on the calendar of the meeting after its credentials are gone, on a
  runtime whose zone rules are written a day ahead.\<close>

theorem sorted_and_determined_witness:
  "sorted_wrt (<) (map slot_start
       [\<lparr>slot_start = 1736181000000, slot_end = 1736182800000, available = True\<rparr>,
        \<lparr>slot_start = 1736186400000, slot_end = 1736188200000, available = True\<rparr>])
   \<and> findAvailableSlots (utcHost H23\<lparr>zoneOffsetMinutes := dayAheadOffset\<rparr>)
         (meetingCalendar\<lparr>isAuthenticated := False\<rparr>) 30 1736181000000 1736188200000 =
       Inr [\<lparr>slot_start = 1736181000000, slot_end = 1736182800000, available = True\<rparr>,
            \<lparr>slot_start = 1736186400000, slot_end = 1736188200000, available = True\<rparr>]"
proof -
  note t = sorted_and_determined [OF meeting_search]
  have e: "\<And>t. (t + dayAheadOffset t * msPerMinute) div msPerHour mod 24
              = (t + losAngelesOffset t * msPerMinute) div msPerHour mod 24"
  proof -
    fix t
    have "t + dayAheadOffset t * msPerMinute
        = (t + losAngelesOffset t * msPerMinute) + 86400000"
      by (simp add: dayAheadOffset_def msPerMinute_def)
    then show "(t + dayAheadOffset t * msPerMinute) div msPerHour mod 24
              = (t + losAngelesOffset t * msPerMinute) div msPerHour mod 24"
      unfolding msPerHour_def by (simp only: day_ahead_hour)
  qed
  have same: "hostOffsetMinutes (utcHost H23\<lparr>zoneOffsetMinutes := dayAheadOffset\<rparr>)
        = hostOffsetMinutes (utcHost H23)
      \<and> (\<forall>t. pacificHourOf (utcHost H23\<lparr>zoneOffsetMinutes := dayAheadOffset\<rparr>) t
               = pacificHourOf (utcHost H23) t)
      \<and> getEvents (meetingCalendar\<lparr>isAuthenticated := False\<rparr>) 1736181000000 1736188200000
        = getEvents meetingCalendar 1736181000000 1736188200000"
    by (simp add: pacificHourOf_def utcHost_def e)
  show ?thesis
    using t [THEN conjunct1] t [THEN conjunct2, THEN spec, THEN spec, THEN mp, OF same]
    by (rule conjI)
qed

text \<open>
  C10, exact duration: for every slot returned by \<open>findAvailableSlots\<close>, the end minus the
  start is \<open>durationMinutes\<close> in milliseconds.
\<close>

theorem exact_duration:
  "findAvailableSlots rt cal durationMinutes startDate endDate = Inr slots \<Longrightarrow>
   slot \<in> set slots \<Longrightarrow>
   slot_end slot - slot_start slot = durationMinutes * 60 * 1000"
proof -
  assume r: "findAvailableSlots rt cal durationMinutes startDate endDate = Inr slots"
    and m: "slot \<in> set slots"
  from r obtain events where
    s: "slots = availableSlots (slotLoop rt durationMinutes endDate events (initialState rt startDate))"
    by (rule findAvailableSlots_result)
  have "\<forall>x \<in> set slots. slot_end x - slot_start x = durationMinutes * 60 * 1000"
    unfolding s by (rule slots_all) (simp_all add: initialState_def)
  then show ?thesis using m by blast
qed

theorem exact_duration_witness:
  "findAvailableSlots (utcHost H23) meetingCalendar 30 1736181000000 1736188200000 =
     Inr [\<lparr>slot_start = 1736181000000, slot_end = 1736182800000, available = True\<rparr>,
          \<lparr>slot_start = 1736186400000, slot_end = 1736188200000, available = True\<rparr>]
   \<and> slot_end \<lparr>slot_start = 1736186400000, slot_end = 1736188200000, available = True\<rparr>
       - slot_start \<lparr>slot_start = 1736186400000, slot_end = 1736188200000, available = True\<rparr>
     = 30 * 60 * 1000"
proof (intro conjI)
  show "slot_end \<lparr>slot_start = 1736186400000, slot_end = 1736188200000, available = True\<rparr>
       - slot_start \<lparr>slot_start = 1736186400000, slot_end = 1736188200000, available = True\<rparr>
     = 30 * 60 * 1000"
    by (rule exact_duration [OF meeting_search]) simp
qed (rule meeting_search)

end
